theory Spec2Isabelle
  imports Main
begin

section \<open>The plan graph\<close>

text \<open>
  A plan is held by reference. Its identity is a \<open>plan_id\<close>, and the graph is a store from
  identities to the edge lists every plan carries in its embedded \<open>basePlan\<close>:
  \<open>children\<close> (ordered) and \<open>parents\<close>. Several plans may list the same plan, and a plan
  may be passed in more than one argument position, so every edit is a store update.
\<close>

type_synonym plan_id = nat

record basePlan =
  children :: "plan_id list"
  parents :: "plan_id list"

type_synonym plan_graph = "plan_id \<Rightarrow> basePlan"

text \<open>
  The errors an editing primitive returns. \<open>SystemInternalError\<close> carries the message of
  \<open>SystemInternalErrorType.Gen\<close>; \<open>NotFoundError\<close> is the failure of a replacement whose
  old entry is not listed. Go's \<open>error\<close> result is a \<open>plan_error option\<close>, \<open>None\<close> being
  \<open>nil\<close>; \<open>errors.Trace\<close> keeps the error (and keeps \<open>nil\<close>).
\<close>

datatype plan_error = NotFoundError | SystemInternalError string

subsection \<open>The edge methods of \<open>basePlan\<close>\<close>

text \<open>
  The editing primitives call seven methods of \<open>basePlan\<close> that are declared in another
  file of package \<open>plan\<close>. Each is given here as section 4.1 of the spec describes it.
\<close>

text \<open>Modelled from the spec: the method \<open>Parents\<close>, "parents()", which reads the list.\<close>

definition Parents :: "plan_graph \<Rightarrow> plan_id \<Rightarrow> plan_id list" where
  "Parents g p = parents (g p)"

text \<open>Modelled from the spec: the method \<open>Children\<close>, "children()", which reads the list.\<close>

definition Children :: "plan_graph \<Rightarrow> plan_id \<Rightarrow> plan_id list" where
  "Children g p = children (g p)"

text \<open>Modelled from the spec: the method \<open>AddChild\<close>, "append-only edge mutation".\<close>

definition AddChild :: "plan_graph \<Rightarrow> plan_id \<Rightarrow> plan_id \<Rightarrow> plan_graph" where
  "AddChild g p child = g(p := (g p)\<lparr>children := children (g p) @ [child]\<rparr>)"

text \<open>Modelled from the spec: the method \<open>AddParent\<close>, "append-only edge mutation".\<close>

definition AddParent :: "plan_graph \<Rightarrow> plan_id \<Rightarrow> plan_id \<Rightarrow> plan_graph" where
  "AddParent g p parent = g(p := (g p)\<lparr>parents := parents (g p) @ [parent]\<rparr>)"

text \<open>
  Modelled from the spec: the method \<open>SetParents\<close>, which stores the plans it is given as
  the parents list; called with none, it leaves the plan parentless ("its single child
  becomes parentless").
\<close>

definition SetParents :: "plan_graph \<Rightarrow> plan_id \<Rightarrow> plan_id list \<Rightarrow> plan_graph" where
  "SetParents g p pars = g(p := (g p)\<lparr>parents := pars\<rparr>)"

text \<open>
  Modelled from the spec: the scan shared by \<open>ReplaceChild\<close> and \<open>ReplaceParent\<close>. The
  replacement "fails if old is not present" and otherwise writes \<open>new\<close> into the slot that
  holds \<open>old\<close>; one slot is written (section 4.3: "that parent's child-slot pointing at
  node is replaced"), the first in list order. \<open>None\<close> is the failure.
\<close>

fun replace_first :: "'a \<Rightarrow> 'a \<Rightarrow> 'a list \<Rightarrow> 'a list option" where
  "replace_first old new [] = None"
| "replace_first old new (x # xs) =
     (if x = old then Some (new # xs)
      else map_option ((#) x) (replace_first old new xs))"

text \<open>
  Modelled from the spec: the method \<open>ReplaceChild\<close>, "replaceChild(old, new): fails with
  NotFoundError if old is not present".
\<close>

definition ReplaceChild ::
  "plan_graph \<Rightarrow> plan_id \<Rightarrow> plan_id \<Rightarrow> plan_id \<Rightarrow> plan_error option \<times> plan_graph" where
  "ReplaceChild g p child newChild =
     (case replace_first child newChild (children (g p)) of
        None \<Rightarrow> (Some NotFoundError, g)
      | Some cs \<Rightarrow> (None, g(p := (g p)\<lparr>children := cs\<rparr>)))"

text \<open>
  Modelled from the spec: the method \<open>ReplaceParent\<close>, "replaceParent(old, new): fails with
  NotFoundError if old is not present".
\<close>

definition ReplaceParent ::
  "plan_graph \<Rightarrow> plan_id \<Rightarrow> plan_id \<Rightarrow> plan_id \<Rightarrow> plan_error option \<times> plan_graph" where
  "ReplaceParent g p parent newPar =
     (case replace_first parent newPar (parents (g p)) of
        None \<Rightarrow> (Some NotFoundError, g)
      | Some ps \<Rightarrow> (None, g(p := (g p)\<lparr>parents := ps\<rparr>)))"

subsection \<open>The editing primitives\<close>

text \<open>
  \<open>addChild\<close> takes two interface values that may be \<open>nil\<close> (\<open>None\<close>) and returns at once
  when either is. It appends the parent to the child's parents first, then the child to
  the parent's children.
\<close>

definition addChild :: "plan_graph \<Rightarrow> plan_id option \<Rightarrow> plan_id option \<Rightarrow> plan_graph" where
  "addChild g parent child =
     (case (parent, child) of
        (Some p, Some c) \<Rightarrow> AddChild (AddParent g c p) p c
      | _ \<Rightarrow> g)"

text \<open>
  \<open>InsertPlan\<close> and \<open>RemovePlan\<close> call methods on their arguments without a \<open>nil\<close> test;
  they are modelled on plans that exist. Each returns its error result together with the
  store as the call leaves it, so that what a failed call has already written is visible.
\<close>

definition InsertPlan ::
  "plan_graph \<Rightarrow> plan_id \<Rightarrow> plan_id \<Rightarrow> plan_id \<Rightarrow> plan_error option \<times> plan_graph" where
  "InsertPlan g parent child ins =
     (case ReplaceParent g child parent ins of
        (Some err, g1) \<Rightarrow> (Some err, g1)
      | (None, g1) \<Rightarrow>
          (case ReplaceChild g1 parent child ins of
             (Some err, g2) \<Rightarrow> (Some err, g2)
           | (None, g2) \<Rightarrow> (None, AddParent (AddChild g2 ins child) ins parent)))"

text \<open>
  In \<open>RemovePlan\<close> the reads \<open>parents[0]\<close> and \<open>children[0]\<close> come after the length test,
  so they are in range.
\<close>

definition RemovePlan :: "plan_graph \<Rightarrow> plan_id \<Rightarrow> plan_error option \<times> plan_graph" where
  "RemovePlan g p =
     (let ps = Parents g p; cs = Children g p in
      if length ps > 1 \<or> length cs \<noteq> 1 then
        (Some (SystemInternalError ''can't remove this plan''), g)
      else if length ps = 0 then
        (let child = cs ! 0 in (None, SetParents g child []))
      else
        (let parent = ps ! 0; child = cs ! 0 in
         case ReplaceChild g parent p child of
           (Some err, g1) \<Rightarrow> (Some err, g1)
         | (None, g1) \<Rightarrow> ReplaceParent g1 child p parent))"

subsection \<open>Edge symmetry and sequences of calls\<close>

text \<open>
  Edge symmetry among the plans \<open>L\<close> of a graph: \<open>P\<close> lists \<open>C\<close> as a child if and only if
  \<open>C\<close> lists \<open>P\<close> as a parent.
\<close>

definition edge_symmetry :: "plan_id set \<Rightarrow> plan_graph \<Rightarrow> bool" where
  "edge_symmetry L g \<longleftrightarrow>
     (\<forall>P\<in>L. \<forall>C\<in>L. (C \<in> set (children (g P))) = (P \<in> set (parents (g C))))"

text \<open>
  The same with multiplicity: \<open>P\<close> lists \<open>C\<close> as a child as many times as \<open>C\<close> lists \<open>P\<close>
  as a parent.
\<close>

definition edge_balance :: "plan_id set \<Rightarrow> plan_graph \<Rightarrow> bool" where
  "edge_balance L g \<longleftrightarrow>
     (\<forall>P\<in>L. \<forall>C\<in>L. count_list (children (g P)) C = count_list (parents (g C)) P)"

text \<open>
  A call of one of the three primitives, and a sequence of calls each of which succeeds
  (\<open>calls\<close> is \<open>None\<close> as soon as one returns an error).
\<close>

datatype edit =
    AddChildCall plan_id plan_id
  | InsertPlanCall plan_id plan_id plan_id
  | RemovePlanCall plan_id

fun call :: "plan_graph \<Rightarrow> edit \<Rightarrow> plan_error option \<times> plan_graph" where
  "call g (AddChildCall parent child) = (None, addChild g (Some parent) (Some child))"
| "call g (InsertPlanCall parent child ins) = InsertPlan g parent child ins"
| "call g (RemovePlanCall p) = RemovePlan g p"

fun calls :: "plan_graph \<Rightarrow> edit list \<Rightarrow> plan_graph option" where
  "calls g [] = Some g"
| "calls g (e # es) =
     (case call g e of
        (None, g') \<Rightarrow> calls g' es
      | (Some err, g') \<Rightarrow> None)"

text \<open>A removed plan is no longer one of the plans of the graph.\<close>

fun still_in_graph :: "plan_id set \<Rightarrow> edit \<Rightarrow> plan_id set" where
  "still_in_graph L (RemovePlanCall p) = L - {p}"
| "still_in_graph L _ = L"

text \<open>
  The proviso on removing a parentless plan: its child has no other parent among the
  plans of the graph.
\<close>

fun root_removal_unshared :: "plan_id set \<Rightarrow> plan_graph \<Rightarrow> edit \<Rightarrow> bool" where
  "root_removal_unshared L g (RemovePlanCall p) =
     (parents (g p) = [] \<longrightarrow>
        (\<forall>c\<in>set (children (g p)). \<forall>q\<in>L. q \<in> set (parents (g c)) \<longrightarrow> q = p))"
| "root_removal_unshared L g _ = True"

fun root_removals_unshared :: "plan_id set \<Rightarrow> plan_graph \<Rightarrow> edit list \<Rightarrow> bool" where
  "root_removals_unshared L g [] = True"
| "root_removals_unshared L g (e # es) =
     (root_removal_unshared L g e \<and>
      root_removals_unshared (still_in_graph L e) (snd (call g e)) es)"

subsection \<open>Example graphs\<close>

definition no_edges :: basePlan where
  "no_edges = \<lparr>children = [], parents = []\<rparr>"

text \<open>The chain \<open>0 \<rightarrow> 1 \<rightarrow> 2\<close>, parent to child.\<close>

definition chain3 :: plan_graph where
  "chain3 = (\<lambda>_. no_edges)
     (0 := \<lparr>children = [1], parents = []\<rparr>,
      1 := \<lparr>children = [2], parents = [0]\<rparr>,
      2 := \<lparr>children = [], parents = [1]\<rparr>)"

text \<open>
  \<open>half_edge\<close>: plan 1 lists plan 0 as its parent, and plan 0 lists no child (the state
  after \<open>AddParent\<close> alone).
\<close>

definition half_edge :: plan_graph where
  "half_edge = (\<lambda>_. no_edges)(1 := \<lparr>children = [], parents = [0]\<rparr>)"

text \<open>\<open>shared_child\<close>: the parentless plans 1 and 2 share the child 3.\<close>

definition shared_child :: plan_graph where
  "shared_child = (\<lambda>_. no_edges)
     (1 := \<lparr>children = [3], parents = []\<rparr>,
      2 := \<lparr>children = [3], parents = []\<rparr>,
      3 := \<lparr>children = [], parents = [1, 2]\<rparr>)"

text \<open>
  \<open>busy_insert\<close>: the edge \<open>0 \<rightarrow> 1\<close>, and a plan 3 that already has the child 4.
\<close>

definition busy_insert :: plan_graph where
  "busy_insert = (\<lambda>_. no_edges)
     (0 := \<lparr>children = [1], parents = []\<rparr>,
      1 := \<lparr>children = [], parents = [0]\<rparr>,
      3 := \<lparr>children = [4], parents = []\<rparr>,
      4 := \<lparr>children = [], parents = [3]\<rparr>)"

text \<open>
  \<open>double_edge\<close>: plan 0 lists plan 1 in both of its child slots (after two calls of
  \<open>AddChild\<close>), and plan 1 lists plan 0 once.
\<close>

definition double_edge :: plan_graph where
  "double_edge = (\<lambda>_. no_edges)
     (0 := \<lparr>children = [1, 1], parents = []\<rparr>,
      1 := \<lparr>children = [], parents = [0]\<rparr>)"

text \<open>
  On \<open>chain3\<close>: give plan 2 the child 3, insert plan 4 between them, then remove plan 1 and
  the root 0.
\<close>

definition example_edits :: "edit list" where
  "example_edits =
     [AddChildCall 2 3, InsertPlanCall 2 3 4, RemovePlanCall 1, RemovePlanCall 0]"

section \<open>Expressions, schemas and the join operators\<close>

subsection \<open>The expression and schema collaborators\<close>

text \<open>
  Modelled from the spec: the column descriptor of package \<open>expression\<close>, compared by
  identity ("by underlying-column identity").
\<close>

type_synonym column = string

text \<open>
  Modelled from the spec: \<open>expression.Schema\<close>, an "ordered list of column descriptors
  with a containment test".
\<close>

type_synonym schema = "column list"

text \<open>Modelled from the spec: \<open>Schema.Contains\<close>, the containment test of a schema.\<close>

definition Contains :: "schema \<Rightarrow> column \<Rightarrow> bool" where
  "Contains s c = (c \<in> set s)"

text \<open>
  Modelled from the spec: \<open>expression.CorrelatedColumn\<close>, "a reference pairing an
  underlying schema column with the scope depth at which it was introduced". The source
  reads its embedded field \<open>Column\<close>.
\<close>

record CorrelatedColumn =
  Column :: column
  Depth :: nat

text \<open>Modelled from the spec: \<open>types.Datum\<close>, an opaque value.\<close>

type_synonym datum = int

text \<open>
  Modelled from the spec: \<open>expression.Expression\<close>, a tree whose leaves are column
  references, correlated column references and constants, and whose inner nodes are
  scalar functions applied to argument expressions (an equality condition is the scalar
  function with a left and a right argument).
\<close>

datatype expression =
    ColumnExpr column
  | CorrelatedColumnExpr CorrelatedColumn
  | ConstantExpr datum
  | ScalarFunctionExpr string "expression list"

text \<open>
  Modelled from the spec: \<open>expression.ScalarFunction\<close>, the function name and the
  arguments. \<open>as_Expression\<close> is the conversion of a \<open>*ScalarFunction\<close> to the interface
  \<open>Expression\<close>.
\<close>

type_synonym ScalarFunction = "string \<times> expression list"

definition as_Expression :: "ScalarFunction \<Rightarrow> expression" where
  "as_Expression f = ScalarFunctionExpr (fst f) (snd f)"

definition is_ScalarFunction :: "expression \<Rightarrow> bool" where
  "is_ScalarFunction e = (case e of ScalarFunctionExpr name args \<Rightarrow> True | _ \<Rightarrow> False)"

text \<open>
  The run-time panics of the operator methods: a failed type assertion to
  \<open>*expression.ScalarFunction\<close> and an index out of range.
\<close>

datatype go_panic = TypeAssertionFailed | IndexOutOfRange

text \<open>
  The type assertion to \<open>*expression.ScalarFunction\<close> in its one-result form: it panics
  when the dynamic type of the expression is another one.
\<close>

definition as_ScalarFunction :: "expression \<Rightarrow> go_panic + ScalarFunction" where
  "as_ScalarFunction e =
     (case e of
        ScalarFunctionExpr name args \<Rightarrow> Inr (name, args)
      | _ \<Rightarrow> Inl TypeAssertionFailed)"



text \<open>
  Modelled from the spec: \<open>extractCorColumns\<close>, the "correlated references" an expression
  makes, as a sequence: one entry for each correlated column reference in the tree, left
  to right.
\<close>

fun extractCorColumns :: "expression \<Rightarrow> CorrelatedColumn list" where
  "extractCorColumns (CorrelatedColumnExpr c) = [c]"
| "extractCorColumns (ScalarFunctionExpr name args) = concat (map extractCorColumns args)"
| "extractCorColumns e = []"

subsection \<open>\<open>Join\<close> and \<open>Apply\<close>\<close>

datatype JoinType = InnerJoin | LeftOuterJoin | RightOuterJoin | SemiJoin | LeftOuterSemiJoin

record Join =
  JoinType :: JoinType
  anti :: bool
  reordered :: bool
  cartesianJoin :: bool
  preferMergeJoin :: bool
  EqualConditions :: "ScalarFunction list"
  LeftConditions :: "expression list"
  RightConditions :: "expression list"
  OtherConditions :: "expression list"
  DefaultValues :: "datum list"

record Apply = Join +
  corCols :: "CorrelatedColumn list"

text \<open>
  \<open>Join.columnSubstitute\<close> hands every condition to \<open>expression.ColumnSubstitute\<close>, a
  function of another package; the method is modelled for any such function \<open>subst\<close>.
\<close>

type_synonym substitution = "expression \<Rightarrow> schema \<Rightarrow> expression list \<Rightarrow> expression"

text \<open>
  The first loop of \<open>Join.columnSubstitute\<close>: each equality condition is substituted and
  the result is asserted to be a scalar function, in list order; the first failed
  assertion panics.
\<close>

fun substitute_EqualConditions ::
  "substitution \<Rightarrow> schema \<Rightarrow> expression list \<Rightarrow> ScalarFunction list
     \<Rightarrow> go_panic + ScalarFunction list" where
  "substitute_EqualConditions subst s exprs [] = Inr []"
| "substitute_EqualConditions subst s exprs (f # fs) =
     (case as_ScalarFunction (subst (as_Expression f) s exprs) of
        Inl pn \<Rightarrow> Inl pn
      | Inr f' \<Rightarrow>
          (case substitute_EqualConditions subst s exprs fs of
             Inl pn \<Rightarrow> Inl pn
           | Inr fs' \<Rightarrow> Inr (f' # fs')))"

definition Join_columnSubstitute ::
  "substitution \<Rightarrow> 'a Join_scheme \<Rightarrow> schema \<Rightarrow> expression list \<Rightarrow> go_panic + 'a Join_scheme" where
  "Join_columnSubstitute subst p s exprs =
     (case substitute_EqualConditions subst s exprs (EqualConditions p) of
        Inl pn \<Rightarrow> Inl pn
      | Inr eq \<Rightarrow>
          Inr (p\<lparr>EqualConditions := eq,
                 LeftConditions := map (\<lambda>e. subst e s exprs) (LeftConditions p),
                 RightConditions := map (\<lambda>e. subst e s exprs) (RightConditions p),
                 OtherConditions := map (\<lambda>e. subst e s exprs) (OtherConditions p)\<rparr>))"

text \<open>
  What an operator reads from each of its children: the child's \<open>Schema()\<close> and the result
  of the child's own \<open>extractCorrelatedCols()\<close>.
\<close>

record child_plan =
  Schema :: schema
  extracted :: "CorrelatedColumn list"

text \<open>
  Modelled from the spec: \<open>basePlan.extractCorrelatedCols\<close>, "the recursive union of
  children's correlated columns", in the order of the children.
\<close>

definition basePlan_extractCorrelatedCols :: "child_plan list \<Rightarrow> CorrelatedColumn list" where
  "basePlan_extractCorrelatedCols kids = concat (map extracted kids)"

text \<open>
  \<open>Join.extractCorrelatedCols\<close> appends to the children's columns those of the equality,
  left, right and other conditions, in this order. \<open>extract\<close> stands for
  \<open>extractCorColumns\<close>.
\<close>

definition Join_extractCorrelatedCols ::
  "(expression \<Rightarrow> CorrelatedColumn list) \<Rightarrow> child_plan list \<Rightarrow> 'a Join_scheme
     \<Rightarrow> CorrelatedColumn list" where
  "Join_extractCorrelatedCols extract kids p =
     basePlan_extractCorrelatedCols kids
     @ concat (map (\<lambda>f. extract (as_Expression f)) (EqualConditions p))
     @ concat (map extract (LeftConditions p))
     @ concat (map extract (RightConditions p))
     @ concat (map extract (OtherConditions p))"

text \<open>
  The loop of \<open>Apply.extractCorrelatedCols\<close>, \<open>for i := len(corCols) - 1; i >= 0; i--\<close>,
  with \<open>Suc i\<close> the number of iterations left. Each iteration reads \<open>p.children[0]\<close> and
  \<open>corCols[i]\<close> (either read panics out of range) and, when the left child's schema
  contains the column, continues with \<open>append(corCols[:i], corCols[i+1:]...)\<close>.
\<close>

fun remove_resolved ::
  "child_plan list \<Rightarrow> nat \<Rightarrow> CorrelatedColumn list \<Rightarrow> go_panic + CorrelatedColumn list" where
  "remove_resolved kids 0 cols = Inr cols"
| "remove_resolved kids (Suc i) cols =
     (case kids of
        [] \<Rightarrow> Inl IndexOutOfRange
      | left # _ \<Rightarrow>
          if i < length cols then
            remove_resolved kids i
              (if Contains (Schema left) (Column (cols ! i))
               then take i cols @ drop (Suc i) cols
               else cols)
          else Inl IndexOutOfRange)"

definition Apply_extractCorrelatedCols ::
  "(expression \<Rightarrow> CorrelatedColumn list) \<Rightarrow> child_plan list \<Rightarrow> Apply
     \<Rightarrow> go_panic + CorrelatedColumn list" where
  "Apply_extractCorrelatedCols extract kids p =
     (let cols = Join_extractCorrelatedCols extract kids p
      in remove_resolved kids (length cols) cols)"

subsection \<open>Example operators\<close>

text \<open>The join of the scenario: the single equality condition \<open>a.id = b.id\<close>.\<close>

definition scenario_join :: Join where
  "scenario_join =
     \<lparr>JoinType = InnerJoin, anti = False, reordered = False, cartesianJoin = False,
      preferMergeJoin = False,
      EqualConditions = [(''eq'', [ColumnExpr ''a.id'', ColumnExpr ''b.id''])],
      LeftConditions = [], RightConditions = [], OtherConditions = [],
      DefaultValues = []\<rparr>"

text \<open>A substitution that collapses every expression to a constant.\<close>

definition collapsing_substitute :: substitution where
  "collapsing_substitute e s newExprs = ConstantExpr 1"

text \<open>
  An \<open>Apply\<close> whose left child has the schema \<open>[t.x]\<close>, whose right child refers to \<open>t.x\<close> as
  a correlated column, and two of whose conditions refer to the correlated column \<open>s.y\<close>
  of an outer scope.
\<close>

definition scenario_apply :: Apply where
  "scenario_apply =
     \<lparr>JoinType = SemiJoin, anti = False, reordered = False, cartesianJoin = False,
      preferMergeJoin = False,
      EqualConditions = [],
      LeftConditions = [],
      RightConditions = [],
      OtherConditions =
        [ScalarFunctionExpr ''gt''
           [CorrelatedColumnExpr \<lparr>Column = ''s.y'', Depth = 0\<rparr>, ColumnExpr ''t.x''],
         ScalarFunctionExpr ''lt''
           [CorrelatedColumnExpr \<lparr>Column = ''s.y'', Depth = 0\<rparr>, ColumnExpr ''u.z'']],
      DefaultValues = [],
      corCols = []\<rparr>"

definition scenario_children :: "child_plan list" where
  "scenario_children =
     [\<lparr>Schema = [''t.x''], extracted = []\<rparr>,
      \<lparr>Schema = [''u.z''], extracted = [\<lparr>Column = ''t.x'', Depth = 0\<rparr>]\<rparr>]"

section \<open>Replacing one slot of an edge list\<close>

lemma replace_first_None_iff: "replace_first old new xs = None \<longleftrightarrow> old \<notin> set xs"
  by (induction xs) auto

lemma replace_first_slot:
  "replace_first old new xs = Some ys \<Longrightarrow>
   \<exists>i<length xs. xs ! i = old \<and> (\<forall>j<i. xs ! j \<noteq> old) \<and> ys = xs[i := new]"
proof (induction xs arbitrary: ys)
  case Nil
  then show ?case by simp
next
  case (Cons x xs)
  show ?case
  proof (cases "x = old")
    case True
    with Cons.prems have "ys = new # xs" by simp
    with True show ?thesis by (intro exI [of _ 0]) simp
  next
    case False
    with Cons.prems obtain zs where zs: "replace_first old new xs = Some zs" and ys: "ys = x # zs"
      by auto
    from Cons.IH [OF zs] obtain i where i: "i < length xs" "xs ! i = old"
      "\<forall>j<i. xs ! j \<noteq> old" "zs = xs[i := new]" by blast
    have "\<forall>j<Suc i. (x # xs) ! j \<noteq> old"
      using False i(3) by (auto simp: nth_Cons split: nat.splits)
    with i ys show ?thesis by (intro exI [of _ "Suc i"]) simp
  qed
qed

lemma count_replace_first:
  "replace_first old new xs = Some ys \<Longrightarrow>
   count_list ys z + (if z = old then 1 else 0) = count_list xs z + (if z = new then 1 else 0)"
  by (induction xs arbitrary: ys) (auto split: if_splits)

section \<open>What the editing primitives write\<close>

lemma children_addChild:
  "children (addChild g (Some p) (Some c) x) =
     (if x = p then children (g p) @ [c] else children (g x))"
  by (simp add: addChild_def AddChild_def AddParent_def)

lemma parents_addChild:
  "parents (addChild g (Some p) (Some c) x) =
     (if x = c then parents (g c) @ [p] else parents (g x))"
  by (simp add: addChild_def AddChild_def AddParent_def)

lemma InsertPlan_ok:
  assumes "fst (InsertPlan g P C I) = None"
  shows "\<exists>ps cs.
    replace_first P I (parents (g C)) = Some ps \<and>
    replace_first C I (children (g P)) = Some cs \<and>
    (\<forall>x. children (snd (InsertPlan g P C I) x) =
       (if x = I then (if I = P then cs else children (g I)) @ [C]
        else if x = P then cs else children (g x))) \<and>
    (\<forall>x. parents (snd (InsertPlan g P C I) x) =
       (if x = I then (if I = C then ps else parents (g I)) @ [P]
        else if x = C then ps else parents (g x)))"
proof -
  from assms obtain ps where ps: "replace_first P I (parents (g C)) = Some ps"
    by (cases "replace_first P I (parents (g C))")
       (auto simp: InsertPlan_def ReplaceParent_def)
  let ?g1 = "g(C := (g C)\<lparr>parents := ps\<rparr>)"
  have ch: "children (?g1 P) = children (g P)" by simp
  from assms ps ch obtain cs where cs: "replace_first C I (children (g P)) = Some cs"
    by (cases "replace_first C I (children (g P))")
       (auto simp: InsertPlan_def ReplaceParent_def ReplaceChild_def)
  have res: "snd (InsertPlan g P C I) =
     AddParent (AddChild (?g1(P := (?g1 P)\<lparr>children := cs\<rparr>)) I C) I P"
    using ps cs ch by (simp add: InsertPlan_def ReplaceParent_def ReplaceChild_def)
  have c: "children (snd (InsertPlan g P C I) x) =
       (if x = I then (if I = P then cs else children (g I)) @ [C]
        else if x = P then cs else children (g x))" for x
    unfolding res by (simp add: AddParent_def AddChild_def)
  have p: "parents (snd (InsertPlan g P C I) x) =
       (if x = I then (if I = C then ps else parents (g I)) @ [P]
        else if x = C then ps else parents (g x))" for x
    unfolding res by (simp add: AddParent_def AddChild_def)
  from ps cs c p show ?thesis by blast
qed

lemma basePlan_eqI: "children a = children b \<Longrightarrow> parents a = parents b \<Longrightarrow> a = (b::basePlan)"
  by simp

lemma RemovePlan_ok_one:
  assumes par: "parents (g N) = [P]" and chi: "children (g N) = [C]"
    and ok: "fst (RemovePlan g N) = None"
  shows "\<exists>cs ps.
    replace_first N C (children (g P)) = Some cs \<and>
    replace_first N P (parents (g C)) = Some ps \<and>
    (\<forall>x. children (snd (RemovePlan g N) x) = (if x = P then cs else children (g x))) \<and>
    (\<forall>x. parents (snd (RemovePlan g N) x) = (if x = C then ps else parents (g x)))"
proof -
  have step: "RemovePlan g N =
     (case ReplaceChild g P N C of
        (Some err, g1) \<Rightarrow> (Some err, g1)
      | (None, g1) \<Rightarrow> ReplaceParent g1 C N P)"
    using par chi by (simp add: RemovePlan_def Let_def Parents_def Children_def)
  from ok obtain cs where cs: "replace_first N C (children (g P)) = Some cs"
    unfolding step by (cases "replace_first N C (children (g P))") (auto simp: ReplaceChild_def)
  let ?g1 = "g(P := (g P)\<lparr>children := cs\<rparr>)"
  have pa: "parents (?g1 C) = parents (g C)" by simp
  from ok cs pa obtain ps where ps: "replace_first N P (parents (g C)) = Some ps"
    unfolding step
    by (cases "replace_first N P (parents (g C))") (auto simp: ReplaceChild_def ReplaceParent_def)
  have res: "snd (RemovePlan g N) = ?g1(C := (?g1 C)\<lparr>parents := ps\<rparr>)"
    unfolding step using cs ps pa by (simp add: ReplaceChild_def ReplaceParent_def)
  have c: "children (snd (RemovePlan g N) x) = (if x = P then cs else children (g x))" for x
    unfolding res by simp
  have p: "parents (snd (RemovePlan g N) x) = (if x = C then ps else parents (g x))" for x
    unfolding res by simp
  from cs ps c p show ?thesis by blast
qed

lemma RemovePlan_ok_zero:
  assumes "parents (g N) = []" and "children (g N) = [C]"
  shows "RemovePlan g N = (None, g(C := (g C)\<lparr>parents := []\<rparr>))"
  using assms by (simp add: RemovePlan_def Let_def Parents_def Children_def SetParents_def)

section \<open>Edge balance under each primitive\<close>

lemma edge_balance_symmetry: "edge_balance L g \<Longrightarrow> edge_symmetry L g"
  unfolding edge_balance_def edge_symmetry_def
  by (metis count_list_0_iff)

lemma addChild_balance:
  assumes "edge_balance L g"
  shows "edge_balance L (addChild g (Some p) (Some c))"
  using assms unfolding edge_balance_def
  by (auto simp: children_addChild parents_addChild)

lemma InsertPlan_balance:
  assumes bal: "edge_balance L g" and ok: "fst (InsertPlan g P C I) = None"
  shows "edge_balance L (snd (InsertPlan g P C I))"
proof -
  obtain ps cs where
    ps: "replace_first P I (parents (g C)) = Some ps" and
    cs: "replace_first C I (children (g P)) = Some cs" and
    c: "\<And>x. children (snd (InsertPlan g P C I) x) =
       (if x = I then (if I = P then cs else children (g I)) @ [C]
        else if x = P then cs else children (g x))" and
    p: "\<And>x. parents (snd (InsertPlan g P C I) x) =
       (if x = I then (if I = C then ps else parents (g I)) @ [P]
        else if x = C then ps else parents (g x))"
    using InsertPlan_ok [OF ok] by blast
  have "count_list (children (snd (InsertPlan g P C I) A)) B =
        count_list (parents (snd (InsertPlan g P C I) B)) A"
    if A: "A \<in> L" and B: "B \<in> L" for A B
  proof -
    have e: "count_list (children (g A)) B = count_list (parents (g B)) A"
      using bal A B by (simp add: edge_balance_def)
    have l: "count_list (children (snd (InsertPlan g P C I) A)) B + (if A = P \<and> B = C then 1 else 0)
        = count_list (children (g A)) B + (if A = P \<and> B = I then 1 else 0)
          + (if A = I \<and> B = C then 1 else 0)"
      using count_replace_first [OF cs, of B] by (auto simp: c)
    have r: "count_list (parents (snd (InsertPlan g P C I) B)) A + (if A = P \<and> B = C then 1 else 0)
        = count_list (parents (g B)) A + (if A = P \<and> B = I then 1 else 0)
          + (if A = I \<and> B = C then 1 else 0)"
      using count_replace_first [OF ps, of A] by (auto simp: p)
    from l r e show ?thesis by simp
  qed
  then show ?thesis by (simp add: edge_balance_def)
qed

lemma RemovePlan_balance:
  assumes bal: "edge_balance L g" and ok: "fst (RemovePlan g N) = None"
    and un: "root_removal_unshared L g (RemovePlanCall N)"
  shows "edge_balance (L - {N}) (snd (RemovePlan g N))"
proof -
  from ok have len: "length (parents (g N)) \<le> 1" "length (children (g N)) = 1"
    by (auto simp: RemovePlan_def Parents_def Children_def Let_def split: if_splits)
  then obtain C where chi: "children (g N) = [C]"
    by (cases "children (g N)") auto
  show ?thesis
  proof (cases "parents (g N)")
    case Nil
    have res: "snd (RemovePlan g N) = g(C := (g C)\<lparr>parents := []\<rparr>)"
      using Nil chi by (simp add: RemovePlan_ok_zero)
    have "count_list (children (snd (RemovePlan g N) A)) B =
          count_list (parents (snd (RemovePlan g N) B)) A"
      if A: "A \<in> L - {N}" and B: "B \<in> L - {N}" for A B
    proof (cases "B = C")
      case True
      from un Nil chi A have "A \<notin> set (parents (g C))" by auto
      then have "count_list (parents (g C)) A = 0" by simp
      moreover have "count_list (children (g A)) C = count_list (parents (g C)) A"
        using bal A B True by (simp add: edge_balance_def)
      ultimately show ?thesis using True by (auto simp: res)
    next
      case False
      then show ?thesis using bal A B by (auto simp: res edge_balance_def)
    qed
    then show ?thesis by (simp add: edge_balance_def)
  next
    case (Cons P rest)
    with len have par: "parents (g N) = [P]" by simp
    obtain cs ps where
      cs: "replace_first N C (children (g P)) = Some cs" and
      ps: "replace_first N P (parents (g C)) = Some ps" and
      c: "\<And>x. children (snd (RemovePlan g N) x) = (if x = P then cs else children (g x))" and
      p: "\<And>x. parents (snd (RemovePlan g N) x) = (if x = C then ps else parents (g x))"
      using RemovePlan_ok_one [OF par chi ok] by blast
    have "count_list (children (snd (RemovePlan g N) A)) B =
          count_list (parents (snd (RemovePlan g N) B)) A"
      if A: "A \<in> L - {N}" and B: "B \<in> L - {N}" for A B
    proof -
      have e: "count_list (children (g A)) B = count_list (parents (g B)) A"
        using bal A B by (simp add: edge_balance_def)
      have l: "count_list (children (snd (RemovePlan g N) A)) B
          = count_list (children (g A)) B + (if A = P \<and> B = C then 1 else 0)"
        using count_replace_first [OF cs, of B] B by (auto simp: c)
      have r: "count_list (parents (snd (RemovePlan g N) B)) A
          = count_list (parents (g B)) A + (if A = P \<and> B = C then 1 else 0)"
        using count_replace_first [OF ps, of A] A by (auto simp: p)
      from l r e show ?thesis by simp
    qed
    then show ?thesis by (simp add: edge_balance_def)
  qed
qed

lemma call_balance:
  assumes "edge_balance L g" and "fst (call g e) = None" and "root_removal_unshared L g e"
  shows "edge_balance (still_in_graph L e) (snd (call g e))"
  using assms
  by (cases e) (simp_all add: addChild_balance InsertPlan_balance RemovePlan_balance)

section \<open>The loops of the join operators\<close>


lemma as_ScalarFunction_Inl:
  "as_ScalarFunction e = Inl pn \<longleftrightarrow> pn = TypeAssertionFailed \<and> \<not> is_ScalarFunction e"
  by (auto simp: as_ScalarFunction_def is_ScalarFunction_def split: expression.splits)


lemma substitute_EqualConditions_Inl:
  "substitute_EqualConditions subst s exprs fs = Inl pn \<longleftrightarrow>
   pn = TypeAssertionFailed \<and>
   (\<exists>f\<in>set fs. \<not> is_ScalarFunction (subst (as_Expression f) s exprs))"
proof (induction fs)
  case Nil
  then show ?case by simp
next
  case (Cons f fs)
  show ?case
  proof (cases "as_ScalarFunction (subst (as_Expression f) s exprs)")
    case (Inl a)
    then show ?thesis using as_ScalarFunction_Inl [of "subst (as_Expression f) s exprs" a]
      by auto
  next
    case (Inr f')
    then have "is_ScalarFunction (subst (as_Expression f) s exprs)"
      using as_ScalarFunction_Inl [of "subst (as_Expression f) s exprs" TypeAssertionFailed]
      by auto
    with Inr Cons.IH show ?thesis by (auto split: sum.splits)
  qed
qed

lemma remove_resolved_filter:
  "n \<le> length cols \<Longrightarrow>
   remove_resolved (left # rest) n cols =
     Inr (filter (\<lambda>c. \<not> Contains (Schema left) (Column c)) (take n cols) @ drop n cols)"
proof (induction n arbitrary: cols)
  case 0
  then show ?case by simp
next
  case (Suc n)
  then have n: "n < length cols" by simp
  show ?case
  proof (cases "Contains (Schema left) (Column (cols ! n))")
    case True
    let ?cols' = "take n cols @ drop (Suc n) cols"
    from n have "n \<le> length ?cols'" by simp
    from Suc.IH [OF this] n True show ?thesis
      by (simp add: take_Suc_conv_app_nth)
  next
    case False
    from n have "n \<le> length cols" by simp
    from Suc.IH [OF this] n False show ?thesis
      by (simp add: take_Suc_conv_app_nth Cons_nth_drop_Suc)
  qed
qed

section \<open>Edge symmetry\<close>

text \<open>
  Claim C1, as stated: edge symmetry holds after every sequence of successful calls of
  \<open>addChild\<close>, \<open>InsertPlan\<close> and \<open>RemovePlan\<close> on a graph in which it holds. It fails in
  two ways. On \<open>shared_child\<close> the removal of the parentless plan 1 empties the parents
  list of its child 3, which plan 2 still lists as a child. On \<open>double_edge\<close>, where
  plan 0 lists plan 1 twice and plan 1 lists plan 0 once, \<open>InsertPlan\<close> rewrites one slot on
  each side, and plan 0 still lists plan 1, which no longer lists plan 0.
\<close>

theorem edge_symmetry_broken_counterexample:
  "edge_symmetry {1, 2, 3} shared_child \<and>
   fst (RemovePlan shared_child 1) = None \<and>
   \<not> edge_symmetry {2, 3} (snd (RemovePlan shared_child 1)) \<and>
   edge_symmetry {0, 1, 2} double_edge \<and>
   fst (InsertPlan double_edge 0 1 2) = None \<and>
   \<not> edge_symmetry {0, 1, 2} (snd (InsertPlan double_edge 0 1 2))"
  by (simp add: edge_symmetry_def shared_child_def double_edge_def no_edges_def
      RemovePlan_def Let_def Parents_def Children_def SetParents_def
      ReplaceChild_def ReplaceParent_def InsertPlan_def AddChild_def AddParent_def)

text \<open>
  Claim C1, amended. Edge symmetry counted with multiplicity (\<open>P\<close> lists \<open>C\<close> as a child
  as many times as \<open>C\<close> lists \<open>P\<close> as a parent) holds among the plans of the graph after
  every sequence of calls of \<open>addChild\<close>, \<open>InsertPlan\<close> and \<open>RemovePlan\<close> that individually
  succeed, when it held before, when a removed plan no longer counts as a plan of the
  graph, and when every parentless plan that is removed is the only parent its child has
  in the graph. The "if and only if" form of the symmetry follows.
\<close>

theorem edge_balance_calls:
  assumes "edge_balance L g" and "calls g es = Some g'" and "root_removals_unshared L g es"
  shows "edge_balance (foldl still_in_graph L es) g' \<and> edge_symmetry (foldl still_in_graph L es) g'"
  using assms
proof (induction es arbitrary: L g)
  case Nil
  then show ?case by (simp add: edge_balance_symmetry)
next
  case (Cons e es)
  from Cons.prems(2) have ok: "fst (call g e) = None" and rest: "calls (snd (call g e)) es = Some g'"
    by (auto split: prod.splits option.splits)
  from Cons.prems(3) have u1: "root_removal_unshared L g e"
    and u2: "root_removals_unshared (still_in_graph L e) (snd (call g e)) es" by simp_all
  from call_balance [OF Cons.prems(1) ok u1]
  have "edge_balance (still_in_graph L e) (snd (call g e))" .
  from Cons.IH [OF this rest u2] show ?case by simp
qed

theorem edge_balance_calls_witness:
  "edge_balance {0, 1, 2, 3, 4} chain3 \<and>
   root_removals_unshared {0, 1, 2, 3, 4} chain3 example_edits \<and>
   foldl still_in_graph {0, 1, 2, 3, 4} example_edits = {2, 3, 4} \<and>
   (\<exists>g'. calls chain3 example_edits = Some g' \<and> edge_balance {2, 3, 4} g' \<and>
      edge_symmetry {2, 3, 4} g' \<and>
      children (g' 2) = [4] \<and> children (g' 4) = [3] \<and> parents (g' 3) = [4] \<and> parents (g' 2) = [])"
proof -
  have b: "edge_balance {0, 1, 2, 3, 4} chain3"
    by (simp add: edge_balance_def chain3_def no_edges_def)
  have u: "root_removals_unshared {0, 1, 2, 3, 4} chain3 example_edits"
    by (simp add: example_edits_def chain3_def no_edges_def
      RemovePlan_def Let_def Parents_def Children_def SetParents_def
      ReplaceChild_def ReplaceParent_def InsertPlan_def AddChild_def AddParent_def addChild_def)
  have l: "foldl still_in_graph {0, 1, 2, 3, 4} example_edits = {2, 3, 4}"
    by (auto simp: example_edits_def)
  obtain g' where s: "calls chain3 example_edits = Some g'"
    and sh: "children (g' 2) = [4] \<and> children (g' 4) = [3] \<and> parents (g' 3) = [4] \<and> parents (g' 2) = []"
    by (simp add: example_edits_def chain3_def no_edges_def
      RemovePlan_def Let_def Parents_def Children_def SetParents_def
      ReplaceChild_def ReplaceParent_def InsertPlan_def AddChild_def AddParent_def addChild_def)
  from edge_balance_calls [OF b s u] b u l s sh show ?thesis by simp
qed

section \<open>Correlated columns of \<open>Apply\<close>\<close>

text \<open>
  Claim C2, as stated: the result of \<open>Apply.extractCorrelatedCols\<close> has no duplicates, and
  a correlated column outside the left schema is present exactly once. It fails on
  \<open>scenario_apply\<close>: two conditions refer to the correlated column \<open>s.y\<close>, the extraction of
  the join lists it twice, and so does the result.
\<close>

theorem Apply_extractCorrelatedCols_duplicates_counterexample:
  "Apply_extractCorrelatedCols extractCorColumns scenario_children scenario_apply =
     Inr [\<lparr>Column = ''s.y'', Depth = 0\<rparr>, \<lparr>Column = ''s.y'', Depth = 0\<rparr>] \<and>
   Join_extractCorrelatedCols extractCorColumns scenario_children scenario_apply =
     [\<lparr>Column = ''t.x'', Depth = 0\<rparr>, \<lparr>Column = ''s.y'', Depth = 0\<rparr>, \<lparr>Column = ''s.y'', Depth = 0\<rparr>] \<and>
   \<not> Contains (Schema (scenario_children ! 0)) ''s.y''"
  by (simp add: Apply_extractCorrelatedCols_def Join_extractCorrelatedCols_def Let_def
      basePlan_extractCorrelatedCols_def scenario_children_def scenario_apply_def
      Contains_def as_Expression_def numeral_3_eq_3)

text \<open>
  Claim C2, amended. For an \<open>Apply\<close> that has its left child, \<open>extractCorrelatedCols\<close>
  returns the extraction of the underlying \<open>Join\<close> filtered, in its order, to the entries
  whose column is not contained in the left child's schema. No entry whose column is in
  the left schema is in the result, and every other entry is in the result as many times
  as it is in the extraction of the join (duplicates are not removed).
\<close>

theorem Apply_extractCorrelatedCols_filter:
  assumes "kids = left # rest"
  shows "\<exists>res. Apply_extractCorrelatedCols extract kids p = Inr res \<and>
     res = filter (\<lambda>c. \<not> Contains (Schema left) (Column c)) (Join_extractCorrelatedCols extract kids p) \<and>
     (\<forall>c. Contains (Schema left) (Column c) \<longrightarrow> c \<notin> set res) \<and>
     (\<forall>c. \<not> Contains (Schema left) (Column c) \<longrightarrow>
        count_list res c = count_list (Join_extractCorrelatedCols extract kids p) c)"
proof -
  let ?P = "\<lambda>c. \<not> Contains (Schema left) (Column c)"
  have cnt: "count_list (filter ?P xs) c = (if ?P c then count_list xs c else 0)" for xs :: "CorrelatedColumn list" and c
    by (induction xs) auto
  have "Apply_extractCorrelatedCols extract kids p =
      Inr (filter ?P (Join_extractCorrelatedCols extract kids p))"
    using assms remove_resolved_filter [of "length (Join_extractCorrelatedCols extract kids p)"
        "Join_extractCorrelatedCols extract kids p" left rest]
    by (simp add: Apply_extractCorrelatedCols_def Let_def)
  then show ?thesis by (simp add: cnt)
qed

theorem Apply_extractCorrelatedCols_filter_witness:
  "scenario_children = scenario_children ! 0 # tl scenario_children \<and>
   Schema (scenario_children ! 0) = [''t.x''] \<and>
   Apply_extractCorrelatedCols extractCorColumns scenario_children scenario_apply =
     Inr [\<lparr>Column = ''s.y'', Depth = 0\<rparr>, \<lparr>Column = ''s.y'', Depth = 0\<rparr>]"
  using Apply_extractCorrelatedCols_filter [of scenario_children "scenario_children ! 0"
     "tl scenario_children" extractCorColumns scenario_apply]
  by (simp add: scenario_children_def Join_extractCorrelatedCols_def
      basePlan_extractCorrelatedCols_def scenario_apply_def Contains_def as_Expression_def)

section \<open>\<open>InsertPlan\<close> on failure\<close>

text \<open>
  Claim C3, as stated: when \<open>InsertPlan\<close> returns an error, the children and parents
  lists of parent, child and insert are as before the call. It fails on \<open>half_edge\<close>: the
  child lists the parent, the parent does not list the child, and the call returns the
  error after the child's parents list has become \<open>[2]\<close>.
\<close>

theorem InsertPlan_error_partial_counterexample:
  "fst (InsertPlan half_edge 0 1 2) = Some NotFoundError \<and>
   parents (snd (InsertPlan half_edge 0 1 2) 1) = [2] \<and>
   parents (half_edge 1) = [0]"
  by (simp add: InsertPlan_def ReplaceParent_def ReplaceChild_def half_edge_def no_edges_def)

text \<open>
  Claim C3, amended. Every error of \<open>InsertPlan\<close> is the error of a failed replacement.
  When the parent is not among the child's parents, the store is unchanged. When it is,
  the error comes from the second step (the child is not among the parent's children), and
  the store differs from the one before the call exactly in the child's parents list,
  where the first slot holding the parent now holds the inserted plan.
\<close>

theorem InsertPlan_error_state:
  assumes "fst (InsertPlan g parent child ins) = Some e"
  shows "e = NotFoundError \<and>
     (if parent \<in> set (parents (g child))
      then child \<notin> set (children (g parent)) \<and>
        (\<exists>ps. replace_first parent ins (parents (g child)) = Some ps \<and>
           snd (InsertPlan g parent child ins) = g(child := (g child)\<lparr>parents := ps\<rparr>))
      else snd (InsertPlan g parent child ins) = g)"
proof (cases "replace_first parent ins (parents (g child))")
  case None
  then have "parent \<notin> set (parents (g child))"
    by (simp add: replace_first_None_iff)
  with None show ?thesis using assms
    by (simp add: InsertPlan_def ReplaceParent_def)
next
  case (Some ps)
  then have mem: "parent \<in> set (parents (g child))"
    using replace_first_None_iff [of parent ins "parents (g child)"] by auto
  let ?g1 = "g(child := (g child)\<lparr>parents := ps\<rparr>)"
  have ch: "children (?g1 parent) = children (g parent)" by simp
  show ?thesis
  proof (cases "replace_first child ins (children (g parent))")
    case None
    then have "child \<notin> set (children (g parent))"
      by (simp add: replace_first_None_iff)
    with None Some mem ch show ?thesis using assms
      by (simp add: InsertPlan_def ReplaceParent_def ReplaceChild_def)
  next
    case (Some cs)
    with \<open>replace_first parent ins (parents (g child)) = Some ps\<close> ch assms show ?thesis
      by (simp add: InsertPlan_def ReplaceParent_def ReplaceChild_def)
  qed
qed

theorem InsertPlan_error_state_witness:
  "fst (InsertPlan half_edge 0 1 2) = Some NotFoundError \<and>
   snd (InsertPlan half_edge 0 1 2) = half_edge(1 := (half_edge 1)\<lparr>parents := [2]\<rparr>)"
  using InsertPlan_error_state [of half_edge 0 1 2 NotFoundError]
  by (simp add: InsertPlan_def ReplaceParent_def ReplaceChild_def half_edge_def no_edges_def)

section \<open>\<open>RemovePlan\<close> with one parent\<close>

text \<open>
  Claim C4, as stated: after \<open>RemovePlan(N)\<close> succeeds on a chain \<open>P \<rightarrow> N \<rightarrow> C\<close>, the
  children and parents lists of \<open>N\<close> are empty. It fails on \<open>chain3\<close>: the removed plan 1
  keeps both of its lists.
\<close>

theorem RemovePlan_not_detached_counterexample:
  "parents (chain3 1) = [0] \<and> children (chain3 1) = [2] \<and> fst (RemovePlan chain3 1) = None \<and>
   children (snd (RemovePlan chain3 1) 1) \<noteq> [] \<and> parents (snd (RemovePlan chain3 1) 1) \<noteq> []"
  by (simp add: RemovePlan_def Let_def Parents_def Children_def ReplaceChild_def ReplaceParent_def
      chain3_def no_edges_def)

text \<open>
  Claim C4, amended. When \<open>N\<close> has exactly the parent \<open>P\<close> and exactly the child \<open>C\<close> and
  \<open>RemovePlan(N)\<close> succeeds, the children list of \<open>P\<close> is the old one with \<open>C\<close> in a slot
  that held \<open>N\<close>, the parents list of \<open>C\<close> is the old one with \<open>P\<close> in a slot that held
  \<open>N\<close>, and the lists of \<open>N\<close> itself are not emptied: they are still \<open>[C]\<close> and \<open>[P]\<close>.
\<close>

theorem RemovePlan_splice:
  assumes par: "parents (g N) = [P]" and chi: "children (g N) = [C]"
    and ok: "fst (RemovePlan g N) = None"
  shows "(\<exists>i<length (children (g P)). children (g P) ! i = N \<and>
            children (snd (RemovePlan g N) P) = (children (g P))[i := C]) \<and>
         (\<exists>i<length (parents (g C)). parents (g C) ! i = N \<and>
            parents (snd (RemovePlan g N) C) = (parents (g C))[i := P]) \<and>
         children (snd (RemovePlan g N) N) = [C] \<and>
         parents (snd (RemovePlan g N) N) = [P]"
proof -
  obtain cs ps where
    cs: "replace_first N C (children (g P)) = Some cs" and
    ps: "replace_first N P (parents (g C)) = Some ps" and
    c: "\<And>x. children (snd (RemovePlan g N) x) = (if x = P then cs else children (g x))" and
    p: "\<And>x. parents (snd (RemovePlan g N) x) = (if x = C then ps else parents (g x))"
    using RemovePlan_ok_one [OF par chi ok] by blast
  from replace_first_slot [OF cs]
  have 1: "\<exists>i<length (children (g P)). children (g P) ! i = N \<and>
            children (snd (RemovePlan g N) P) = (children (g P))[i := C]"
    by (auto simp: c)
  from replace_first_slot [OF ps]
  have 2: "\<exists>i<length (parents (g C)). parents (g C) ! i = N \<and>
            parents (snd (RemovePlan g N) C) = (parents (g C))[i := P]"
    by (auto simp: p)
  have 3: "children (snd (RemovePlan g N) N) = [C]"
  proof (cases "N = P")
    case True
    with cs chi have "cs = [C]" by (auto split: if_splits)
    with True c [of N] show ?thesis by simp
  next
    case False
    with chi show ?thesis by (simp add: c)
  qed
  have 4: "parents (snd (RemovePlan g N) N) = [P]"
  proof (cases "N = C")
    case True
    with ps par have "ps = [P]" by (auto split: if_splits)
    with True p [of N] show ?thesis by simp
  next
    case False
    with par show ?thesis by (simp add: p)
  qed
  from 1 2 3 4 show ?thesis by blast
qed

theorem RemovePlan_splice_witness:
  "parents (chain3 1) = [0] \<and> children (chain3 1) = [2] \<and> fst (RemovePlan chain3 1) = None \<and>
   children (snd (RemovePlan chain3 1) 0) = [2] \<and>
   parents (snd (RemovePlan chain3 1) 2) = [0] \<and>
   children (snd (RemovePlan chain3 1) 1) = [2] \<and>
   parents (snd (RemovePlan chain3 1) 1) = [0]"
  using RemovePlan_splice [of chain3 1 0 2]
  by (simp add: RemovePlan_def Let_def Parents_def Children_def ReplaceChild_def ReplaceParent_def
      chain3_def no_edges_def)

section \<open>Rejection by \<open>RemovePlan\<close>\<close>

text \<open>
  Claim C5. A plan with two or more parents, or with two or more children, or with no
  child, is rejected by \<open>RemovePlan\<close> with the internal error "can't remove this plan",
  and the store is returned as it was: no plan's children or parents list is modified.
\<close>

theorem RemovePlan_rejects_unchanged:
  assumes "length (parents (g p)) \<ge> 2 \<or> length (children (g p)) \<ge> 2 \<or> length (children (g p)) = 0"
  shows "RemovePlan g p = (Some (SystemInternalError ''can't remove this plan''), g)"
  using assms by (auto simp: RemovePlan_def Parents_def Children_def Let_def)

theorem RemovePlan_rejects_unchanged_witness:
  "length (children (chain3 2)) = 0 \<and>
   RemovePlan chain3 2 = (Some (SystemInternalError ''can't remove this plan''), chain3)"
  using RemovePlan_rejects_unchanged [of chain3 2] by (simp add: chain3_def)

section \<open>\<open>RemovePlan\<close> without a parent\<close>

text \<open>
  Claim C6, as stated: on a plan with no parent and exactly one child, \<open>RemovePlan\<close>
  returns the child. The function has the single result \<open>error\<close>; on \<open>chain3\<close> the call
  on plan 0 yields \<open>nil\<close> and the updated store, and no plan.
\<close>

theorem RemovePlan_returns_no_plan_counterexample:
  "parents (chain3 0) = [] \<and> children (chain3 0) = [1] \<and>
   RemovePlan chain3 0 = (None, chain3(1 := (chain3 1)\<lparr>parents := []\<rparr>))"
  by (simp add: RemovePlan_def Let_def Parents_def Children_def SetParents_def chain3_def)

text \<open>
  Claim C6, amended. On a plan with no parent and exactly one child, \<open>RemovePlan\<close>
  returns no error and leaves that child parentless; every other plan is as before.
\<close>

theorem RemovePlan_parentless:
  assumes "parents (g N) = []" and "children (g N) = [C]"
  shows "fst (RemovePlan g N) = None \<and> parents (snd (RemovePlan g N) C) = [] \<and>
    (\<forall>x. x \<noteq> C \<longrightarrow> snd (RemovePlan g N) x = g x)"
  using assms by (simp add: RemovePlan_ok_zero)

theorem RemovePlan_parentless_witness:
  "parents (chain3 0) = [] \<and> children (chain3 0) = [1] \<and>
   fst (RemovePlan chain3 0) = None \<and> parents (snd (RemovePlan chain3 0) 1) = []"
  using RemovePlan_parentless [of chain3 0 1] by (simp add: chain3_def)

section \<open>\<open>InsertPlan\<close> on success\<close>

text \<open>
  Claim C7, as stated: after a successful \<open>InsertPlan(P, C, I)\<close> the children list of
  \<open>I\<close> is \<open>[C]\<close>. It fails on \<open>busy_insert\<close>, where the inserted plan 3 already has a
  child: the new child is appended to the list it has.
\<close>

theorem InsertPlan_busy_insert_counterexample:
  "fst (InsertPlan busy_insert 0 1 3) = None \<and>
   children (snd (InsertPlan busy_insert 0 1 3) 3) = [4, 1]"
  by (simp add: InsertPlan_def ReplaceParent_def ReplaceChild_def busy_insert_def no_edges_def AddChild_def AddParent_def)

text \<open>
  Claim C7, amended. For an inserted plan \<open>I\<close> other than \<open>P\<close> and \<open>C\<close>, after a successful
  \<open>InsertPlan(P, C, I)\<close>: the children list of \<open>P\<close> is the old one with \<open>I\<close> in a slot
  that held \<open>C\<close>; the parents list of \<open>C\<close> is the old one with \<open>I\<close> in a slot that held
  \<open>P\<close>; the children list of \<open>I\<close> is its old one followed by \<open>C\<close> and its parents list
  is its old one followed by \<open>P\<close> (so they are \<open>[C]\<close> and \<open>[P]\<close> when \<open>I\<close> had no edges);
  the parents of \<open>P\<close> and the children of \<open>C\<close> are untouched when \<open>P\<close> and \<open>C\<close> differ;
  every other plan is untouched.
\<close>

theorem InsertPlan_success_shape:
  assumes ok: "fst (InsertPlan g P C I) = None" and IP: "I \<noteq> P" and IC: "I \<noteq> C"
  shows "(\<exists>i<length (children (g P)). children (g P) ! i = C \<and>
            children (snd (InsertPlan g P C I) P) = (children (g P))[i := I]) \<and>
         (\<exists>i<length (parents (g C)). parents (g C) ! i = P \<and>
            parents (snd (InsertPlan g P C I) C) = (parents (g C))[i := I]) \<and>
         children (snd (InsertPlan g P C I) I) = children (g I) @ [C] \<and>
         parents (snd (InsertPlan g P C I) I) = parents (g I) @ [P] \<and>
         (P \<noteq> C \<longrightarrow> parents (snd (InsertPlan g P C I) P) = parents (g P) \<and>
            children (snd (InsertPlan g P C I) C) = children (g C)) \<and>
         (\<forall>n. n \<noteq> P \<and> n \<noteq> C \<and> n \<noteq> I \<longrightarrow> snd (InsertPlan g P C I) n = g n)"
proof -
  obtain ps cs where
    ps: "replace_first P I (parents (g C)) = Some ps" and
    cs: "replace_first C I (children (g P)) = Some cs" and
    c: "\<And>x. children (snd (InsertPlan g P C I) x) =
       (if x = I then (if I = P then cs else children (g I)) @ [C]
        else if x = P then cs else children (g x))" and
    p: "\<And>x. parents (snd (InsertPlan g P C I) x) =
       (if x = I then (if I = C then ps else parents (g I)) @ [P]
        else if x = C then ps else parents (g x))"
    using InsertPlan_ok [OF ok] by blast
  from replace_first_slot [OF cs] have 1: "\<exists>i<length (children (g P)). children (g P) ! i = C \<and>
            children (snd (InsertPlan g P C I) P) = (children (g P))[i := I]"
    using IP by (auto simp: c)
  from replace_first_slot [OF ps] have 2: "\<exists>i<length (parents (g C)). parents (g C) ! i = P \<and>
            parents (snd (InsertPlan g P C I) C) = (parents (g C))[i := I]"
    using IC by (auto simp: p)
  have 3: "children (snd (InsertPlan g P C I) I) = children (g I) @ [C]"
    using IP by (simp add: c)
  have 4: "parents (snd (InsertPlan g P C I) I) = parents (g I) @ [P]"
    using IC by (simp add: p)
  have 5: "P \<noteq> C \<longrightarrow> parents (snd (InsertPlan g P C I) P) = parents (g P) \<and>
            children (snd (InsertPlan g P C I) C) = children (g C)"
    using IP IC by (simp add: c p)
  have 6: "\<forall>n. n \<noteq> P \<and> n \<noteq> C \<and> n \<noteq> I \<longrightarrow> snd (InsertPlan g P C I) n = g n"
    by (auto intro!: basePlan_eqI simp: c p)
  from 1 2 3 4 5 6 show ?thesis by blast
qed

theorem InsertPlan_success_shape_witness:
  "fst (InsertPlan chain3 0 1 3) = None \<and> (3::nat) \<noteq> 0 \<and> (3::nat) \<noteq> 1 \<and>
   children (snd (InsertPlan chain3 0 1 3) 0) = [3] \<and>
   parents (snd (InsertPlan chain3 0 1 3) 1) = [3] \<and>
   children (snd (InsertPlan chain3 0 1 3) 3) = [1] \<and>
   parents (snd (InsertPlan chain3 0 1 3) 3) = [0]"
  using InsertPlan_success_shape [of chain3 0 1 3]
  by (simp add: InsertPlan_def ReplaceParent_def ReplaceChild_def AddChild_def AddParent_def
      chain3_def no_edges_def)

section \<open>Column substitution in \<open>Join\<close>\<close>



text \<open>
  Claim C9. \<open>Join.columnSubstitute\<close> asserts the result of every substituted equality
  condition to be a scalar function. The call panics with the failed assertion exactly
  when the substitution turns some equality condition into an expression that is not a
  scalar function (a constant, say), and it returns exactly when every equality condition
  is substituted to a scalar function.
\<close>

theorem Join_columnSubstitute_cast:
  "(Join_columnSubstitute subst p s exprs = Inl TypeAssertionFailed \<longleftrightarrow>
      (\<exists>f\<in>set (EqualConditions p). \<not> is_ScalarFunction (subst (as_Expression f) s exprs))) \<and>
   ((\<exists>p'. Join_columnSubstitute subst p s exprs = Inr p') \<longleftrightarrow>
      (\<forall>f\<in>set (EqualConditions p). is_ScalarFunction (subst (as_Expression f) s exprs)))"
proof -
  have 1: "Join_columnSubstitute subst p s exprs = Inl pn \<longleftrightarrow>
      pn = TypeAssertionFailed \<and>
      (\<exists>f\<in>set (EqualConditions p). \<not> is_ScalarFunction (subst (as_Expression f) s exprs))" for pn
    using substitute_EqualConditions_Inl [of subst s exprs "EqualConditions p" pn]
    by (auto simp: Join_columnSubstitute_def split: sum.splits)
  have 2: "(\<exists>p'. Join_columnSubstitute subst p s exprs = Inr p') \<longleftrightarrow>
      (\<forall>f\<in>set (EqualConditions p). is_ScalarFunction (subst (as_Expression f) s exprs))"
  proof (cases "Join_columnSubstitute subst p s exprs")
    case (Inl a)
    with 1 [of a] show ?thesis by auto
  next
    case (Inr b)
    with 1 [of TypeAssertionFailed] show ?thesis by auto
  qed
  from 1 [of TypeAssertionFailed] 2 show ?thesis by simp
qed

theorem Join_columnSubstitute_cast_witness:
  "\<not> is_ScalarFunction (collapsing_substitute (as_Expression (''eq'', [ColumnExpr ''a.id'', ColumnExpr ''b.id''])) [] []) \<and>
   Join_columnSubstitute collapsing_substitute scenario_join [] [] = Inl TypeAssertionFailed"
  using Join_columnSubstitute_cast [of collapsing_substitute scenario_join "[]" "[]"]
  by (simp add: scenario_join_def collapsing_substitute_def is_ScalarFunction_def)

section \<open>The frame of \<open>RemovePlan\<close> without a parent\<close>

text \<open>
  Claim C10. In the zero-parent case \<open>RemovePlan\<close> clears the whole parents list of the
  child: every plan \<open>Q\<close> that listed the child among its children still does, and is no
  longer among the child's parents; the removed plan's own children list still holds the
  child.
\<close>

theorem RemovePlan_parentless_clears_all:
  assumes "parents (g N) = []" and "children (g N) = [C]"
  shows "parents (snd (RemovePlan g N) C) = [] \<and>
    (\<forall>Q. C \<in> set (children (g Q)) \<longrightarrow>
       C \<in> set (children (snd (RemovePlan g N) Q)) \<and> Q \<notin> set (parents (snd (RemovePlan g N) C))) \<and>
    children (snd (RemovePlan g N) N) = [C]"
  using assms by (auto simp: RemovePlan_ok_zero)

theorem RemovePlan_parentless_clears_all_witness:
  "parents (shared_child 1) = [] \<and> children (shared_child 1) = [3] \<and>
   parents (shared_child 3) = [1, 2] \<and>
   parents (snd (RemovePlan shared_child 1) 3) = [] \<and>
   children (snd (RemovePlan shared_child 1) 2) = [3] \<and>
   children (snd (RemovePlan shared_child 1) 1) = [3]"
  using RemovePlan_parentless_clears_all [of shared_child 1 3]
  by (simp add: shared_child_def RemovePlan_def Let_def Parents_def Children_def SetParents_def)

end
